theory Spec2Isabelle
  imports Complex_Main
begin

section \<open>A 4-bit DAC and ADC\<close>

text \<open>
  The notebook \<^verbatim>\<open>000_DAC...ADC.ipynb\<close> defines two pure functions, \<^verbatim>\<open>dac_output\<close>
  and \<^verbatim>\<open>adc_output\<close>. Voltages are modelled as exact reals: the rounding, overflow
  and special values of the binary floating-point numbers that Python computes with are
  outside this development. Strings are \<^typ>\<open>string\<close>; a raised exception is the left
  summand of the result.
\<close>

datatype error = ValueError | ZeroDivisionError

subsection \<open>Built-ins of the language used by the two functions\<close>

text \<open>\<^verbatim>\<open>int(c)\<close> for a one-character string: the value of a decimal digit, and
  \<^verbatim>\<open>ValueError\<close> for every other character.\<close>

definition py_int :: "char \<Rightarrow> error + int" where
  "py_int c =
     (let k = of_char c :: nat
      in if 48 \<le> k \<and> k \<le> 57 then Inr (int k - 48) else Inl ValueError)"

text \<open>\<^verbatim>\<open>round(x)\<close> with one argument: the nearest integer, the even one of the two when
  \<open>x\<close> lies halfway between them.\<close>

definition py_round :: "real \<Rightarrow> int" where
  "py_round x =
     (let f = \<lfloor>x\<rfloor>; d = x - of_int f
      in if d < 1 / 2 then f
         else if 1 / 2 < d then f + 1
         else if even f then f else f + 1)"

text \<open>The binary digits of a natural number, most significant first, as \<^verbatim>\<open>format(n, 'b')\<close>
  prints them: \<open>0\<close> is the one digit \<^verbatim>\<open>0\<close>.\<close>

fun bin_digits :: "nat \<Rightarrow> string" where
  "bin_digits n =
     (if n < 2 then [if n = 0 then CHR ''0'' else CHR ''1'']
      else bin_digits (n div 2) @ [if n mod 2 = 0 then CHR ''0'' else CHR ''1''])"

declare bin_digits.simps [simp del]

text \<open>\<^verbatim>\<open>format(n, '04b')\<close>: a minus sign for a negative number, then the binary digits
  of the magnitude, padded with zeros after the sign up to a total width of four. A longer
  number is not truncated.\<close>

definition format_04b :: "int \<Rightarrow> string" where
  "format_04b n =
     (let sgn = (if n < 0 then ''-'' else '''');
          ds = bin_digits (nat \<bar>n\<bar>)
      in sgn @ replicate (4 - length sgn - length ds) CHR ''0'' @ ds)"

subsection \<open>The digital-to-analog converter\<close>

definition weights :: "real list" where
  "weights = [8 / 16, 4 / 16, 2 / 16, 1 / 16]"

text \<open>\<^verbatim>\<open>sum(int(bit) * weight * V_ref for bit, weight in zip(...))\<close>: the terms are
  produced one at a time and added to the accumulator, which starts at \<open>0\<close>; a
  character that \<^verbatim>\<open>int\<close> rejects ends the sum with its error.\<close>

fun sum_terms :: "real \<Rightarrow> (char \<times> real) list \<Rightarrow> real \<Rightarrow> error + real" where
  "sum_terms acc [] V_ref = Inr acc"
| "sum_terms acc ((bit_ch, weight) # rest) V_ref =
     (case py_int bit_ch of
        Inl e \<Rightarrow> Inl e
      | Inr d \<Rightarrow> sum_terms (acc + of_int d * weight * V_ref) rest V_ref)"

definition dac_output :: "string \<Rightarrow> real \<Rightarrow> error + real" where
  "dac_output binary_input V_ref =
     (if length binary_input \<noteq> 4 \<or> \<not> set binary_input \<subseteq> {CHR ''0'', CHR ''1''}
      then Inl ValueError
      else sum_terms 0 (zip binary_input weights) V_ref)"

subsection \<open>The analog-to-digital converter\<close>

text \<open>Division of two numbers raises \<^verbatim>\<open>ZeroDivisionError\<close> on a zero divisor.\<close>

definition py_truediv :: "real \<Rightarrow> real \<Rightarrow> error + real" where
  "py_truediv a b = (if b = 0 then Inl ZeroDivisionError else Inr (a / b))"

text \<open>The local variable \<^verbatim>\<open>digital_value\<close> of \<^verbatim>\<open>adc_output\<close>: the input voltage divided
  by the quantization step and rounded.\<close>

definition digital_value :: "real \<Rightarrow> real \<Rightarrow> error + int" where
  "digital_value V_in V_ref =
     (let quantization_levels = 2 ^ 4;
          delta_V = V_ref / quantization_levels
      in case py_truediv V_in delta_V of
           Inl e \<Rightarrow> Inl e
         | Inr q \<Rightarrow> Inr (py_round q))"

definition adc_output :: "real \<Rightarrow> real \<Rightarrow> error + string" where
  "adc_output V_in V_ref =
     (if V_in > V_ref then Inl ValueError
      else case digital_value V_in V_ref of
             Inl e \<Rightarrow> Inl e
           | Inr n \<Rightarrow> Inr (format_04b n))"

subsection \<open>Notions of the specification\<close>

text \<open>A valid 4-bit code: four characters, each \<^verbatim>\<open>0\<close> or \<^verbatim>\<open>1\<close>.\<close>

definition valid_code :: "string \<Rightarrow> bool" where
  "valid_code b \<longleftrightarrow> length b = 4 \<and> list_all (\<lambda>c. c = CHR ''0'' \<or> c = CHR ''1'') b"

text \<open>The value of one bit character, and the unsigned integer that a code denotes, most
  significant bit first.\<close>

definition bit_value :: "char \<Rightarrow> nat" where
  "bit_value c = (if c = CHR ''1'' then 1 else 0)"

definition code_value :: "string \<Rightarrow> nat" where
  "code_value b = foldl (\<lambda>a c. 2 * a + bit_value c) 0 b"

section \<open>Auxiliary facts\<close>

subsection \<open>Rounding\<close>

lemma py_round_of_int: "py_round (of_int n) = n"
  by (simp add: py_round_def)



subsection \<open>Formatting\<close>



lemma format_04b_16: "format_04b 16 = ''10000''"
  by (simp add: format_04b_def bin_digits.simps)

subsection \<open>Valid codes\<close>

lemma valid_code_cases:
  assumes "valid_code b"
  obtains b3 b2 b1 b0 where "b = [b3, b2, b1, b0]"
    and "b3 = CHR ''0'' \<or> b3 = CHR ''1''" and "b2 = CHR ''0'' \<or> b2 = CHR ''1''"
    and "b1 = CHR ''0'' \<or> b1 = CHR ''1''" and "b0 = CHR ''0'' \<or> b0 = CHR ''1''"
proof -
  from assms have len: "length b = Suc (Suc (Suc (Suc 0)))"
    by (simp add: valid_code_def)
  then obtain b3 b2 b1 b0 where eq: "b = [b3, b2, b1, b0]"
    by (auto simp add: length_Suc_conv)
  with assms that show thesis
    by (simp add: valid_code_def)
qed

lemma valid_code_set:
  "valid_code b \<longleftrightarrow> length b = 4 \<and> set b \<subseteq> {CHR ''0'', CHR ''1''}"
  by (auto simp add: valid_code_def list_all_iff)

lemma py_int_bit:
  assumes "c = CHR ''0'' \<or> c = CHR ''1''"
  shows "py_int c = Inr (int (bit_value c))"
  using assms by (auto simp add: py_int_def bit_value_def)


lemma code_value_4:
  "code_value [b3, b2, b1, b0] =
     8 * bit_value b3 + 4 * bit_value b2 + 2 * bit_value b1 + bit_value b0"
  by (simp add: code_value_def)



subsection \<open>The converters on the sixteen levels\<close>

lemma dac_output_code_value:
  assumes "valid_code b"
  shows "dac_output b V = Inr (V * real (code_value b) / 16)"
proof -
  from assms obtain b3 b2 b1 b0 where b: "b = [b3, b2, b1, b0]"
    and bits: "b3 = CHR ''0'' \<or> b3 = CHR ''1''" "b2 = CHR ''0'' \<or> b2 = CHR ''1''"
      "b1 = CHR ''0'' \<or> b1 = CHR ''1''" "b0 = CHR ''0'' \<or> b0 = CHR ''1''"
    by (rule valid_code_cases)
  from bits have sub: "set b \<subseteq> {CHR ''0'', CHR ''1''}"
    unfolding b by auto
  have "dac_output b V = sum_terms 0 (zip b weights) V"
    using sub b by (simp add: dac_output_def)
  also have "\<dots> = Inr (V * real (code_value b) / 16)"
    unfolding b code_value_4 weights_def
    by (simp add: py_int_bit [OF bits(1)] py_int_bit [OF bits(2)]
        py_int_bit [OF bits(3)] py_int_bit [OF bits(4)] algebra_simps)
  finally show ?thesis .
qed

lemma digital_value_level:
  assumes "0 < V"
  shows "digital_value (V * real n / 16) V = Inr (int n)"
proof -
  from assms have "V * real n / 16 / (V / 16) = real_of_int (int n)"
    by simp
  then have "py_round (V * real n / 16 / (V / 16)) = int n"
    by (simp only: py_round_of_int)
  with assms show ?thesis
    by (simp add: digital_value_def py_truediv_def)
qed

text \<open>At full scale the quotient is \<open>16\<close>, for every positive reference voltage.\<close>

lemma adc_output_full_scale:
  assumes "0 < V"
  shows "adc_output V V = Inr ''10000''"
proof -
  have "digital_value (V * real 16 / 16) V = Inr (int 16)"
    using assms by (rule digital_value_level)
  then have "digital_value V V = Inr 16"
    by simp
  then show ?thesis
    by (simp add: adc_output_def format_04b_16)
qed


section \<open>The claims\<close>

text \<open>
  C1. The specification says that at full scale, \<^verbatim>\<open>adc_output(V_ref, V_ref)\<close>, the
  converter returns \<^verbatim>\<open>1111\<close>. The code does not: the quotient is exactly \<open>16\<close>, nothing
  limits it to \<open>15\<close>, and the result is the five-character string \<^verbatim>\<open>10000\<close>, here
  at \<open>V_ref = 5\<close>.
\<close>

theorem adc_output_full_scale_is_five_chars: "adc_output 5 5 = Inr ''10000''"
  by (simp add: adc_output_def digital_value_def py_truediv_def py_round_def format_04b_16)

text \<open>
  C2. The specification says that every code returned for \<open>V_in \<le> V_ref\<close> has four
  characters, each \<^verbatim>\<open>0\<close> or \<^verbatim>\<open>1\<close>. The code returns five characters as soon as the
  quotient rounds to \<open>16\<close>, as for \<open>4.9\<close> volts against a reference of \<open>5\<close>, and
  a minus sign for a negative input.
\<close>

theorem adc_output_code_outside_four_bits:
  "adc_output (49 / 10) 5 = Inr ''10000'' \<and> adc_output (- 1) 5 = Inr ''-011''"
  by (simp add: adc_output_def digital_value_def py_truediv_def py_round_def
      format_04b_def bin_digits.simps)





text \<open>
  C5. \<^verbatim>\<open>dac_output\<close> raises exactly when the length of its argument is not \<open>4\<close> or
  the argument contains a character other than \<^verbatim>\<open>0\<close> and \<^verbatim>\<open>1\<close>; the error is then
  the invalid-argument error, and for every valid code a value is returned.
\<close>

theorem dac_output_raises_iff:
  "((\<exists>e. dac_output b V = Inl e) \<longleftrightarrow>
      (length b \<noteq> 4 \<or> (\<exists>c \<in> set b. c \<noteq> CHR ''0'' \<and> c \<noteq> CHR ''1''))) \<and>
   (length b \<noteq> 4 \<or> (\<exists>c \<in> set b. c \<noteq> CHR ''0'' \<and> c \<noteq> CHR ''1'')
      \<longrightarrow> dac_output b V = Inl ValueError) \<and>
   (valid_code b \<longrightarrow> (\<exists>v. dac_output b V = Inr v))"
proof -
  let ?bad = "length b \<noteq> 4 \<or> (\<exists>c \<in> set b. c \<noteq> CHR ''0'' \<and> c \<noteq> CHR ''1'')"
  have bad: "?bad \<longleftrightarrow> \<not> valid_code b"
    unfolding valid_code_def list_all_iff by blast
  have err: "dac_output b V = Inl ValueError" if "?bad"
  proof -
    from that have "length b \<noteq> 4 \<or> \<not> set b \<subseteq> {CHR ''0'', CHR ''1''}"
      by blast
    then show ?thesis
      unfolding dac_output_def by (rule if_P)
  qed
  have ok: "\<exists>v. dac_output b V = Inr v" if "valid_code b"
    using dac_output_code_value [OF that, of V] by blast
  have "(\<exists>e. dac_output b V = Inl e) \<longleftrightarrow> ?bad"
  proof
    assume "\<exists>e. dac_output b V = Inl e"
    with ok have "\<not> valid_code b" by force
    with bad show ?bad by blast
  next
    assume ?bad
    then show "\<exists>e. dac_output b V = Inl e" using err by blast
  qed
  with err ok show ?thesis by blast
qed

theorem dac_output_raises_iff_witness:
  "dac_output ''101'' 5 = Inl ValueError \<and> dac_output ''10a1'' 5 = Inl ValueError \<and>
   valid_code ''1010'' \<and> (\<exists>v. dac_output ''1010'' 5 = Inr v)"
proof -
  have h: "valid_code ''1010''" by (simp add: valid_code_def)
  have l: "length ''101'' \<noteq> 4" by simp
  have c: "\<exists>c \<in> set ''10a1''. c \<noteq> CHR ''0'' \<and> c \<noteq> CHR ''1''" by simp
  from dac_output_raises_iff [of "''101''" 5] l
  have 1: "dac_output ''101'' 5 = Inl ValueError" by blast
  from dac_output_raises_iff [of "''10a1''" 5] c
  have 2: "dac_output ''10a1'' 5 = Inl ValueError" by blast
  from dac_output_raises_iff [of "''1010''" 5] h
  have 3: "\<exists>v. dac_output ''1010'' 5 = Inr v" by blast
  from 1 2 3 h show ?thesis by blast
qed












end
